theory Spec2Isabelle
  imports Complex_Main "HOL-Library.Sublist" "HOL-Library.Log_Nat"
begin

section \<open>Python values\<close>

text \<open>
  The values the assistant stores in a command's \<open>params\<close> dictionary are strings,
  integers and \<open>None\<close>. A dictionary is an association list in insertion order:
  \<open>py_setitem\<close> overwrites the value of a key in place and appends a new key at the
  end, as a Python \<open>dict\<close> does. Exceptions are values of \<open>py_error\<close>.
\<close>

datatype pyval = PyNone | PyStr string | PyInt int

type_synonym pydict = "(string \<times> pyval) list"

datatype py_error =
    KeyError string
  | AttributeError
  | TypeError
  | ValueError
  | IndexError
  | RecursionError

fun py_setitem :: "pydict \<Rightarrow> string \<Rightarrow> pyval \<Rightarrow> pydict" where
  "py_setitem [] k v = [(k, v)]"
| "py_setitem ((k', v') # d) k v =
     (if k' = k then (k, v) # d else (k', v') # py_setitem d k v)"

definition py_getitem :: "pydict \<Rightarrow> string \<Rightarrow> py_error + pyval" where
  "py_getitem d k = (case map_of d k of None \<Rightarrow> Inl (KeyError k) | Some v \<Rightarrow> Inr v)"

definition py_get :: "pydict \<Rightarrow> string \<Rightarrow> pyval" where
  "py_get d k = (case map_of d k of None \<Rightarrow> PyNone | Some v \<Rightarrow> v)"

definition py_keys :: "pydict \<Rightarrow> string list" where
  "py_keys d = map fst d"

section \<open>Python strings\<close>

text \<open>
  A string is a list of characters; a character stands for the Unicode code point of
  the same number (U+0000 to U+00FF). On these code points the tables below are those
  of Python 3: \<open>str.isspace\<close> (also the class \<open>\s\<close> of \<open>re\<close>, and what
  \<open>str.split()\<close> and \<open>str.strip()\<close> treat as whitespace), \<open>str.isalnum\<close> plus the
  underscore (the class \<open>\w\<close>), the decimal digits (the class \<open>\d\<close>) and
  \<open>str.lower\<close>.
\<close>

definition py_isspace :: "char \<Rightarrow> bool" where
  "py_isspace c =
     (let n = (of_char c :: nat)
      in (9 \<le> n \<and> n \<le> 13) \<or> (28 \<le> n \<and> n \<le> 32) \<or> n = 133 \<or> n = 160)"

definition py_isdigit :: "char \<Rightarrow> bool" where
  "py_isdigit c = (let n = (of_char c :: nat) in 48 \<le> n \<and> n \<le> 57)"

definition py_isword :: "char \<Rightarrow> bool" where
  "py_isword c =
     (let n = (of_char c :: nat)
      in (48 \<le> n \<and> n \<le> 57) \<or> (65 \<le> n \<and> n \<le> 90) \<or> n = 95 \<or> (97 \<le> n \<and> n \<le> 122)
         \<or> n = 170 \<or> n = 178 \<or> n = 179 \<or> n = 181 \<or> n = 185 \<or> n = 186
         \<or> (188 \<le> n \<and> n \<le> 190) \<or> (192 \<le> n \<and> n \<le> 214) \<or> (216 \<le> n \<and> n \<le> 246)
         \<or> (248 \<le> n \<and> n \<le> 255))"

definition py_isupper :: "char \<Rightarrow> bool" where
  "py_isupper c =
     (let n = (of_char c :: nat)
      in (65 \<le> n \<and> n \<le> 90) \<or> (192 \<le> n \<and> n \<le> 214) \<or> (216 \<le> n \<and> n \<le> 222))"

definition py_lower_char :: "char \<Rightarrow> char" where
  "py_lower_char c = (if py_isupper c then char_of ((of_char c :: nat) + 32) else c)"

definition py_lower :: "string \<Rightarrow> string" where
  "py_lower s = map py_lower_char s"

definition py_strip :: "string \<Rightarrow> string" where
  "py_strip s = rev (dropWhile py_isspace (rev (dropWhile py_isspace s)))"

text \<open>
  \<open>str.split()\<close> with no argument: the maximal runs of characters that are not
  whitespace. The second argument is the word read so far.
\<close>

fun split_words :: "string \<Rightarrow> string \<Rightarrow> string list" where
  "split_words [] cur = (if cur = [] then [] else [cur])"
| "split_words (c # cs) cur =
     (if py_isspace c then (if cur = [] then split_words cs [] else cur # split_words cs [])
      else split_words cs (cur @ [c]))"

definition py_split :: "string \<Rightarrow> string list" where
  "py_split s = split_words s []"

fun py_startswith :: "string \<Rightarrow> string \<Rightarrow> bool" where
  "py_startswith s [] = True"
| "py_startswith [] (p # ps) = False"
| "py_startswith (x # xs) (p # ps) = (x = p \<and> py_startswith xs ps)"

text \<open>\<open>sub in s\<close> for strings: \<open>sub\<close> occurs in \<open>s\<close> as a contiguous substring.\<close>

fun py_in :: "string \<Rightarrow> string \<Rightarrow> bool" where
  "py_in sub [] = (sub = [])"
| "py_in sub (x # xs) = (py_startswith (x # xs) sub \<or> py_in sub xs)"

text \<open>
  \<open>s.split(sep, 1)\<close> for a non-empty separator: the text before and after the first
  occurrence of \<open>sep\<close>, or the whole string alone when there is none.
\<close>

fun py_split_once :: "string \<Rightarrow> string \<Rightarrow> string list" where
  "py_split_once [] sep = [[]]"
| "py_split_once (x # xs) sep =
     (if py_startswith (x # xs) sep then [[], drop (length sep) (x # xs)]
      else (case py_split_once xs sep of
              [a] \<Rightarrow> [x # a]
            | a # rest \<Rightarrow> (x # a) # rest
            | [] \<Rightarrow> []))"

definition py_index :: "'a list \<Rightarrow> nat \<Rightarrow> py_error + 'a" where
  "py_index xs i = (if i < length xs then Inr (xs ! i) else Inl IndexError)"

text \<open>\<open>str(n)\<close> for an integer, and \<open>str(v)\<close> as an f-string formats a value.\<close>

definition digit_char :: "nat \<Rightarrow> char" where
  "digit_char d = char_of (48 + d)"

function dec_digits :: "nat \<Rightarrow> string" where
  "dec_digits n = (if n < 10 then [digit_char n] else dec_digits (n div 10) @ [digit_char (n mod 10)])"
  by pat_completeness auto
termination
  by (relation "measure id") auto

declare dec_digits.simps [simp del]

definition str_int :: "int \<Rightarrow> string" where
  "str_int i = (if i < 0 then CHR ''-'' # dec_digits (nat (- i)) else dec_digits (nat i))"

fun py_str :: "pyval \<Rightarrow> string" where
  "py_str PyNone = ''None''"
| "py_str (PyStr s) = s"
| "py_str (PyInt i) = str_int i"

text \<open>
  \<open>int(s)\<close> on a string of decimal digits, the only strings the source passes to it;
  Python rejects the empty string with ValueError.
\<close>

definition py_int :: "string \<Rightarrow> py_error + int" where
  "py_int s =
     (if s \<noteq> [] \<and> list_all py_isdigit s
      then Inr (foldl (\<lambda>a c. 10 * a + (int (of_char c) - 48)) 0 s)
      else Inl ValueError)"

section \<open>Python floats\<close>

text \<open>
  A Python float is an IEEE 754 binary64 number. A finite float is modelled by the
  rational number it denotes. An arithmetic operation computes the exact result and
  rounds it to the nearest float, a tie going to the even significand, as the
  hardware does. For a positive \<open>x\<close>, \<open>float_exponent x\<close> is the exponent \<open>e\<close> with
  \<open>2^e \<le> x < 2^(e+1)\<close> and \<open>float_ulp x\<close> the spacing of the floats there:
  significands have 53 bits, and below \<open>2^-1022\<close> the floats are subnormal, spaced
  \<open>2^-1074\<close> apart. A literal such as \<open>0.2\<close> denotes the float nearest to the decimal
  number. Infinities, NaN and the sign of zero are not modelled; the only floats of
  the program are the volumes of the speech engine, which stay between 0 and 2.
\<close>

type_synonym pyfloat = rat

definition round_half_even :: "rat \<Rightarrow> int" where
  "round_half_even q =
     (let n = \<lfloor>q\<rfloor>; r = q - of_int n in
      if r < 1/2 then n else if 1/2 < r then n + 1 else if even n then n else n + 1)"

definition float_exponent :: "rat \<Rightarrow> int" where
  "float_exponent x =
     (let (p, q) = quotient_of x; k = bitlen p - bitlen q in
      if x < 2 powi k then k - 1 else k)"

definition float_ulp :: "rat \<Rightarrow> rat" where
  "float_ulp x = 2 powi (max (float_exponent x) (- 1022) - 52)"

definition float_round :: "rat \<Rightarrow> pyfloat" where
  "float_round x =
     (if x = 0 then 0
      else if 0 < x then of_int (round_half_even (x / float_ulp x)) * float_ulp x
      else - (of_int (round_half_even (- x / float_ulp (- x))) * float_ulp (- x)))"

definition float_lit :: "rat \<Rightarrow> pyfloat" where
  "float_lit x = float_round x"

definition float_add :: "pyfloat \<Rightarrow> pyfloat \<Rightarrow> pyfloat" where
  "float_add x y = float_round (x + y)"

definition float_sub :: "pyfloat \<Rightarrow> pyfloat \<Rightarrow> pyfloat" where
  "float_sub x y = float_round (x - y)"

definition float_mul :: "pyfloat \<Rightarrow> pyfloat \<Rightarrow> pyfloat" where
  "float_mul x y = float_round (x * y)"

section \<open>config.py\<close>

definition MEMORY_SIZE :: nat where
  "MEMORY_SIZE = 3"

definition VOICE_STYLES :: "(string \<times> (int \<times> pyfloat)) list" where
  "VOICE_STYLES =
     [(''formal'', (150, float_lit (9/10))), (''casual'', (175, float_lit (9/10))),
      (''robotic'', (120, float_lit 1))]"

definition DEFAULT_VOICE_STYLE :: string where
  "DEFAULT_VOICE_STYLE = ''formal''"

definition MAX_RECOGNITION_RETRIES :: nat where
  "MAX_RECOGNITION_RETRIES = 3"

definition MODE_VOICE :: string where
  "MODE_VOICE = ''voice''"

definition MODE_MANUAL :: string where
  "MODE_MANUAL = ''manual''"

section \<open>core/session\_manager.py\<close>

text \<open>
  A command is the dictionary \<open>{'action': ..., 'params': ...}\<close>. A history entry pairs
  it with the instant \<open>datetime.now()\<close> returned when it was stored; instants are
  natural numbers handed in by the caller.
\<close>

record command =
  action :: string
  params :: pydict

record history_entry =
  entry_command :: command
  entry_timestamp :: nat

record pending =
  pending_action :: string
  pending_params :: pydict
  pending_message :: string

text \<open>
  A timer thread started by \<open>set_alarm\<close>: the delay it sleeps and the text its
  callback speaks afterwards.
\<close>

record timer =
  timer_seconds :: pyval
  timer_callback :: string

record session_manager =
  command_history :: "history_entry list"
  pending_confirmation :: "pending option"
  alarm_threads :: "timer list"

text \<open>
  \<open>collections.deque(maxlen=n).append\<close>: the item is appended on the right and, when
  the deque has grown beyond \<open>maxlen\<close>, one item is dropped on the left.
\<close>

definition deque_append :: "nat \<Rightarrow> 'a list \<Rightarrow> 'a \<Rightarrow> 'a list" where
  "deque_append maxlen xs x =
     (let ys = xs @ [x] in if length ys > maxlen then tl ys else ys)"

definition session_init :: session_manager where
  "session_init = \<lparr>command_history = [], pending_confirmation = None, alarm_threads = []\<rparr>"

definition add_to_history :: "session_manager \<Rightarrow> command \<Rightarrow> nat \<Rightarrow> session_manager" where
  "add_to_history s c now =
     s\<lparr>command_history :=
         deque_append MEMORY_SIZE (command_history s)
           \<lparr>entry_command = c, entry_timestamp = now\<rparr>\<rparr>"

definition get_last_command :: "session_manager \<Rightarrow> command option" where
  "get_last_command s =
     (if command_history s \<noteq> [] then Some (entry_command (last (command_history s)))
      else None)"

text \<open>
  \<open>command_history[-offset]\<close> after the guard \<open>len(command_history) >= offset\<close>. The
  source calls it with offsets 1 and 2 only; Python's index \<open>-0\<close> is index 0, and a
  negative offset passes the guard and indexes from the left, out of range (IndexError)
  when it is not below the length.
\<close>

definition get_previous_command :: "session_manager \<Rightarrow> int \<Rightarrow> py_error + command option" where
  "get_previous_command s offset =
     (let h = command_history s; n = int (length h) in
      if n \<ge> offset then
        (let i = (if offset > 0 then n - offset else - offset) in
         if 0 \<le> i \<and> i < n then Inr (Some (entry_command (h ! nat i)))
         else Inl IndexError)
      else Inr None)"

definition set_pending_confirmation ::
  "session_manager \<Rightarrow> string \<Rightarrow> pydict \<Rightarrow> string \<Rightarrow> session_manager" where
  "set_pending_confirmation s a ps msg =
     s\<lparr>pending_confirmation :=
         Some \<lparr>pending_action = a, pending_params = ps, pending_message = msg\<rparr>\<rparr>"

definition get_pending_confirmation :: "session_manager \<Rightarrow> pending option" where
  "get_pending_confirmation s = pending_confirmation s"

definition clear_pending_confirmation :: "session_manager \<Rightarrow> session_manager" where
  "clear_pending_confirmation s = s\<lparr>pending_confirmation := None\<rparr>"

definition confirm_action :: "session_manager \<Rightarrow> command option \<times> session_manager" where
  "confirm_action s =
     (case pending_confirmation s of
        Some p \<Rightarrow>
          (let confirmed = \<lparr>action = pending_action p, params = pending_params p\<rparr>
           in (Some confirmed, clear_pending_confirmation s))
      | None \<Rightarrow> (None, s))"

definition needs_confirmation :: "string \<Rightarrow> bool" where
  "needs_confirmation a = (a \<in> set [''open_app'', ''alarm'', ''reminder''])"

text \<open>The history after a sequence of \<open>add_to_history\<close> calls on a fresh session.\<close>

definition add_all :: "session_manager \<Rightarrow> (command \<times> nat) list \<Rightarrow> session_manager" where
  "add_all s cs = foldl (\<lambda>s' (c, now). add_to_history s' c now) s cs"

definition history_commands :: "session_manager \<Rightarrow> command list" where
  "history_commands s = map entry_command (command_history s)"

section \<open>core/speech\_engine.py\<close>

text \<open>
  The engine's state: the mute flag, the base volume, the current voice style, the
  \<open>rate\<close> and \<open>volume\<close> properties of the text-to-speech engine, and the texts it has
  spoken. The two volumes are floats.
\<close>

record speech_engine =
  is_muted :: bool
  base_volume :: pyfloat
  current_voice_style :: string
  tts_rate :: int
  tts_volume :: pyfloat
  spoken :: "string list"

definition apply_voice_style :: "speech_engine \<Rightarrow> pyval \<Rightarrow> speech_engine" where
  "apply_voice_style s style =
     (case style of
        PyStr name \<Rightarrow>
          (case map_of VOICE_STYLES name of
             Some (rate, volume) \<Rightarrow>
               s\<lparr>tts_rate := rate, tts_volume := float_mul volume (base_volume s),
                 current_voice_style := name\<rparr>
           | None \<Rightarrow> s)
      | _ \<Rightarrow> s)"

text \<open>
  \<open>__init__\<close>: the text-to-speech engine starts with the library's own rate and volume
  (200 and 1.0), which the first \<open>_apply_voice_style\<close> overwrites.
\<close>

definition speech_init :: speech_engine where
  "speech_init =
     apply_voice_style
       \<lparr>is_muted = False, base_volume = float_lit (9/10),
        current_voice_style = DEFAULT_VOICE_STYLE,
        tts_rate = 200, tts_volume = float_lit 1, spoken = []\<rparr>
       (PyStr DEFAULT_VOICE_STYLE)"

definition speak :: "speech_engine \<Rightarrow> string \<Rightarrow> speech_engine" where
  "speak s text = (if \<not> is_muted s \<and> text \<noteq> [] then s\<lparr>spoken := spoken s @ [text]\<rparr> else s)"

definition change_voice_style :: "speech_engine \<Rightarrow> pyval \<Rightarrow> bool \<times> speech_engine" where
  "change_voice_style s style =
     (case style of
        PyStr name \<Rightarrow>
          (if name \<in> set (map fst VOICE_STYLES) then (True, apply_voice_style s style)
           else (False, s))
      | _ \<Rightarrow> (False, s))"

definition adjust_volume :: "speech_engine \<Rightarrow> pyval \<Rightarrow> speech_engine" where
  "adjust_volume s adjustment =
     (if adjustment = PyStr ''louder'' then
        (let s1 = s\<lparr>base_volume :=
                     min (float_lit 1) (float_add (base_volume s) (float_lit (2/10)))\<rparr>
         in apply_voice_style s1 (PyStr (current_voice_style s1)))
      else if adjustment = PyStr ''softer'' then
        (let s1 = s\<lparr>base_volume :=
                     max (float_lit (2/10)) (float_sub (base_volume s) (float_lit (2/10)))\<rparr>
         in apply_voice_style s1 (PyStr (current_voice_style s1)))
      else if adjustment = PyStr ''mute'' then s\<lparr>is_muted := \<not> is_muted s\<rparr>
      else s)"

text \<open>
  What one attempt of the recognizer does: it hears a text, or raises one of the
  exceptions \<open>listen\<close> catches. The environment gives the outcome of each attempt by
  its number, counted from 0.
\<close>

datatype attempt =
    Heard string
  | WaitTimeoutError
  | UnknownValueError
  | RequestError string
  | OtherException string

type_synonym listen_result = "bool \<times> string option \<times> string option"

function listen_from :: "(nat \<Rightarrow> attempt) \<Rightarrow> nat \<Rightarrow> listen_result" where
  "listen_from env retries =
     (if retries < MAX_RECOGNITION_RETRIES then
        (case env retries of
           Heard text \<Rightarrow> (True, Some (py_lower text), None)
         | WaitTimeoutError \<Rightarrow>
             (if retries + 1 < MAX_RECOGNITION_RETRIES then listen_from env (retries + 1)
              else (False, None, Some ''timeout''))
         | UnknownValueError \<Rightarrow>
             (if retries + 1 < MAX_RECOGNITION_RETRIES then listen_from env (retries + 1)
              else (False, None, Some ''unknown''))
         | RequestError e \<Rightarrow> (False, None, Some (''network_error: '' @ e))
         | OtherException e \<Rightarrow> (False, None, Some (''error: '' @ e)))
      else (False, None, Some ''max_retries''))"
  by pat_completeness auto
termination
  by (relation "measure (\<lambda>(env, retries). MAX_RECOGNITION_RETRIES - retries)") auto

declare listen_from.simps [simp del]

definition listen :: "(nat \<Rightarrow> attempt) \<Rightarrow> listen_result" where
  "listen env = listen_from env 0"

text \<open>\<open>get_manual_input\<close> on the line the user typed (\<open>None\<close> when \<open>input\<close> raised).\<close>

definition get_manual_input :: "string option \<Rightarrow> string option" where
  "get_manual_input line =
     (case line of
        None \<Rightarrow> None
      | Some l \<Rightarrow> (let text = py_strip l in if text \<noteq> [] then Some (py_lower text) else None))"

section \<open>jarvis.py\<close>

text \<open>
  The handlers of \<open>SystemFunctions\<close> do input and output only. A call is recorded in
  \<open>calls\<close>, and the message it returns is given by the environment (\<open>reply\<close>), which
  also gives the instant \<open>datetime.now()\<close> returns (\<open>clock\<close>).
\<close>

datatype fcall =
    GetTime
  | GetDate
  | GetWeather pyval
  | GoogleSearch pyval
  | GetWikipediaSummary pyval
  | GetSystemStatus pyval
  | OpenApplication pyval

record world =
  reply :: "fcall \<Rightarrow> string"
  clock :: nat

record jarvis =
  speech :: speech_engine
  session :: session_manager
  current_mode :: string
  is_running :: bool
  continuous_listening :: bool
  calls :: "fcall list"
  logged :: "(string \<times> string) list"

definition jarvis_init :: jarvis where
  "jarvis_init =
     \<lparr>speech = speech_init, session = session_init, current_mode = MODE_VOICE,
      is_running = False, continuous_listening = False, calls = [], logged = []\<rparr>"

definition say :: "jarvis \<Rightarrow> string \<Rightarrow> jarvis" where
  "say j text = j\<lparr>speech := speak (speech j) text\<rparr>"

text \<open>Calling a handler and speaking the message it returns.\<close>

definition call_and_say :: "world \<Rightarrow> jarvis \<Rightarrow> fcall \<Rightarrow> jarvis" where
  "call_and_say w j f = say (j\<lparr>calls := calls j @ [f]\<rparr>) (reply w f)"

text \<open>
  \<open>calculate_seconds\<close>: \<open>unit.lower()\<close> needs a string (AttributeError otherwise), and
  \<open>value * 60\<close> is Python's product: of an integer, or a string repeated, and a
  TypeError on \<open>None\<close>.
\<close>

definition py_times :: "pyval \<Rightarrow> nat \<Rightarrow> py_error + pyval" where
  "py_times v n =
     (case v of
        PyInt i \<Rightarrow> Inr (PyInt (i * int n))
      | PyStr s \<Rightarrow> Inr (PyStr (concat (replicate n s)))
      | PyNone \<Rightarrow> Inl TypeError)"

definition calculate_seconds :: "pyval \<Rightarrow> pyval \<Rightarrow> py_error + pyval" where
  "calculate_seconds v unit =
     (case unit of
        PyStr u \<Rightarrow>
          (let u' = py_lower u in
           if py_startswith u' ''second'' then Inr v
           else if py_startswith u' ''minute'' then py_times v 60
           else if py_startswith u' ''hour'' then py_times v 3600
           else Inr v)
      | _ \<Rightarrow> Inl AttributeError)"

definition set_alarm :: "session_manager \<Rightarrow> pyval \<Rightarrow> string \<Rightarrow> session_manager" where
  "set_alarm s seconds callback =
     s\<lparr>alarm_threads := alarm_threads s @ [\<lparr>timer_seconds = seconds, timer_callback = callback\<rparr>]\<rparr>"

definition set_alarm_params :: "jarvis \<Rightarrow> pydict \<Rightarrow> py_error option \<times> jarvis" where
  "set_alarm_params j ps =
     (case py_getitem ps ''value'' of
        Inl e \<Rightarrow> (Some e, j)
      | Inr v \<Rightarrow>
     (case py_getitem ps ''unit'' of
        Inl e \<Rightarrow> (Some e, j)
      | Inr unit \<Rightarrow>
     (case calculate_seconds v unit of
        Inl e \<Rightarrow> (Some e, j)
      | Inr seconds \<Rightarrow>
          (let j1 = j\<lparr>session := set_alarm (session j) seconds
                      (''Alarm! '' @ py_str v @ '' '' @ py_str unit @ '' has passed!'')\<rparr>
           in (None, say j1 (''Alarm set for '' @ py_str v @ '' '' @ py_str unit))))))"

definition set_reminder :: "jarvis \<Rightarrow> pydict \<Rightarrow> py_error option \<times> jarvis" where
  "set_reminder j ps =
     (case py_getitem ps ''value'' of
        Inl e \<Rightarrow> (Some e, j)
      | Inr v \<Rightarrow>
     (case py_getitem ps ''unit'' of
        Inl e \<Rightarrow> (Some e, j)
      | Inr unit \<Rightarrow>
     (case py_getitem ps ''message'' of
        Inl e \<Rightarrow> (Some e, j)
      | Inr message \<Rightarrow>
     (case calculate_seconds v unit of
        Inl e \<Rightarrow> (Some e, j)
      | Inr seconds \<Rightarrow>
          (let j1 = j\<lparr>session := set_alarm (session j) seconds
                      (''Reminder: '' @ py_str message)\<rparr>
           in (None, say j1 (''Reminder set for '' @ py_str v @ '' '' @ py_str unit)))))))"

definition switch_mode :: "jarvis \<Rightarrow> pyval \<Rightarrow> jarvis" where
  "switch_mode j mode =
     (if mode = PyStr MODE_VOICE then say (j\<lparr>current_mode := MODE_VOICE\<rparr>) ''Switched to voice mode''
      else if mode = PyStr MODE_MANUAL then
        say (j\<lparr>current_mode := MODE_MANUAL\<rparr>) ''Switched to manual mode''
      else j)"

definition help_text :: string where
  "help_text = concat (map (\<lambda>l. l @ [CHR 0x0A])
     [[],
      ''        Here's what I can do:'',
      ''        - Tell time and date'',
      ''        - Get weather information'',
      ''        - Search Google'',
      ''        - Get Wikipedia summaries'',
      ''        - Check system status'',
      ''        - Open applications'',
      ''        - Set alarms and reminders'',
      ''        - Change voice style: formal, casual, or robotic'',
      ''        - Adjust volume: louder, softer, or mute'',
      ''        - Switch modes: voice mode or manual mode'',
      ''        - Remember recent commands: say 'repeat that' or 'undo'' @ [CHR 0x27],
      ''        - Say 'exit' to quit'']) @ ''        ''"

definition show_help :: "jarvis \<Rightarrow> jarvis" where
  "show_help j = say j help_text"

definition handle_listening_mode :: "jarvis \<Rightarrow> pyval \<Rightarrow> jarvis" where
  "handle_listening_mode j mode =
     (if mode = PyStr ''start'' then
        say (j\<lparr>continuous_listening := True\<rparr>) ''Starting continuous listening mode''
      else if mode = PyStr ''stop'' then
        say (j\<lparr>continuous_listening := False\<rparr>) ''Stopping continuous listening mode''
      else j)"

definition handle_speech_error :: "jarvis \<Rightarrow> string \<Rightarrow> jarvis" where
  "handle_speech_error j error =
     (if error = ''timeout'' then
        (say j ''I didn't hear anything. Switching to manual mode.'')\<lparr>current_mode := MODE_MANUAL\<rparr>
      else if error = ''unknown'' then
        (say j ''I couldn't understand that. Switching to manual mode.'')\<lparr>current_mode := MODE_MANUAL\<rparr>
      else if py_in ''network_error'' error then
        (say j ''Network error detected. Switching to manual mode.'')\<lparr>current_mode := MODE_MANUAL\<rparr>
      else if error = ''max_retries'' then
        (say j ''Maximum retries reached. Switching to manual mode.'')\<lparr>current_mode := MODE_MANUAL\<rparr>
      else say j (''Error: '' @ error))"

definition request_confirmation :: "jarvis \<Rightarrow> command \<Rightarrow> py_error option \<times> jarvis" where
  "request_confirmation j c =
     (let a = action c; ps = params c;
          message =
            (if a = ''open_app'' then
               (case py_getitem ps ''app'' of
                  Inl e \<Rightarrow> Inl e
                | Inr app \<Rightarrow> Inr (''Do you want me to open '' @ py_str app @ ''? Say yes or no.''))
             else if a = ''alarm'' then
               (case py_getitem ps ''value'' of
                  Inl e \<Rightarrow> Inl e
                | Inr v \<Rightarrow>
               (case py_getitem ps ''unit'' of
                  Inl e \<Rightarrow> Inl e
                | Inr u \<Rightarrow>
                    Inr (''Do you want me to set an alarm for '' @ py_str v @ '' '' @ py_str u
                         @ ''? Say yes or no.'')))
             else if a = ''reminder'' then
               (case py_getitem ps ''message'' of
                  Inl e \<Rightarrow> Inl e
                | Inr m \<Rightarrow>
                    Inr (''Do you want me to set a reminder for '' @ py_str m @ ''? Say yes or no.''))
             else Inr ''Do you want me to continue? Say yes or no.'')
      in case message of
           Inl e \<Rightarrow> (Some e, j)
         | Inr msg \<Rightarrow>
             (None, say (j\<lparr>session := set_pending_confirmation (session j) a ps msg\<rparr>) msg))"

text \<open>
  \<open>_execute_command\<close> and \<open>_handle_repeat\<close> call each other. The first argument is the
  depth of calls the interpreter still allows: at depth 0 the call raises
  RecursionError, as Python does at its recursion limit. The result is the exception
  that left the call (if any) and the state at that moment.
\<close>

fun execute_command :: "nat \<Rightarrow> world \<Rightarrow> jarvis \<Rightarrow> command \<Rightarrow> py_error option \<times> jarvis"
  and handle_repeat :: "nat \<Rightarrow> world \<Rightarrow> jarvis \<Rightarrow> pydict \<Rightarrow> py_error option \<times> jarvis"
where
  "execute_command 0 w j c = (Some RecursionError, j)"
| "execute_command (Suc d) w j c =
     (let a = action c; ps = params c;
          j1 = j\<lparr>session := add_to_history (session j) c (clock w)\<rparr>
      in
      if needs_confirmation a \<and> get_pending_confirmation (session j1) = None then
        request_confirmation j1 c
      else if a = ''time'' then (None, call_and_say w j1 GetTime)
      else if a = ''date'' then (None, call_and_say w j1 GetDate)
      else if a = ''weather'' then (None, call_and_say w j1 (GetWeather (py_get ps ''city'')))
      else if a = ''search'' then
        (case py_getitem ps ''query'' of
           Inl e \<Rightarrow> (Some e, j1)
         | Inr q \<Rightarrow> (None, call_and_say w j1 (GoogleSearch q)))
      else if a = ''wikipedia'' then
        (case py_getitem ps ''query'' of
           Inl e \<Rightarrow> (Some e, j1)
         | Inr q \<Rightarrow> (None, call_and_say w j1 (GetWikipediaSummary q)))
      else if a = ''system_status'' then
        (None, call_and_say w j1 (GetSystemStatus (py_get ps ''type'')))
      else if a = ''open_app'' then
        (case py_getitem ps ''app'' of
           Inl e \<Rightarrow> (Some e, j1)
         | Inr app \<Rightarrow> (None, call_and_say w j1 (OpenApplication app)))
      else if a = ''alarm'' then set_alarm_params j1 ps
      else if a = ''reminder'' then set_reminder j1 ps
      else if a = ''voice_style'' then
        (case py_getitem ps ''style'' of
           Inl e \<Rightarrow> (Some e, j1)
         | Inr style \<Rightarrow>
             (let (ok, sp) = change_voice_style (speech j1) style; j2 = j1\<lparr>speech := sp\<rparr>
              in if ok then (None, say j2 (''Voice changed to '' @ py_str style @ '' style''))
                 else (None, say j2 (''Voice style '' @ py_str style @ '' not available''))))
      else if a = ''volume'' then
        (case py_getitem ps ''adjustment'' of
           Inl e \<Rightarrow> (Some e, j1)
         | Inr adjustment \<Rightarrow>
             (let j2 = j1\<lparr>speech := adjust_volume (speech j1) adjustment\<rparr>
              in if adjustment = PyStr ''mute'' then
                   (None, say j2 (''Voice '' @ (if is_muted (speech j2) then ''muted'' else ''unmuted'')))
                 else (None, say j2 ''Volume adjusted'')))
      else if a = ''mode_switch'' then
        (case py_getitem ps ''mode'' of
           Inl e \<Rightarrow> (Some e, j1)
         | Inr mode \<Rightarrow> (None, switch_mode j1 mode))
      else if a = ''help'' then (None, show_help j1)
      else if a = ''repeat'' then handle_repeat d w j1 ps
      else if a = ''exit'' then (None, (say j1 ''Goodbye! Shutting down.'')\<lparr>is_running := False\<rparr>)
      else if a = ''listening'' then
        (case py_getitem ps ''mode'' of
           Inl e \<Rightarrow> (Some e, j1)
         | Inr mode \<Rightarrow> (None, handle_listening_mode j1 mode))
      else
        (None, say j1 ''I didn't understand that command. Say 'help' for available commands.''))"
| "handle_repeat 0 w j ps = (Some RecursionError, j)"
| "handle_repeat (Suc d) w j ps =
     (case py_getitem ps ''type'' of
        Inl e \<Rightarrow> (Some e, j)
      | Inr repeat_type \<Rightarrow>
          if repeat_type = PyStr ''repeat'' then
            (case get_last_command (session j) of
               Some last_command \<Rightarrow>
                 execute_command d w (say j ''Repeating last command'') last_command
             | None \<Rightarrow> (None, say j ''No previous command to repeat''))
          else if repeat_type = PyStr ''undo'' then
            (case get_previous_command (session j) 2 of
               Inl e \<Rightarrow> (Some e, j)
             | Inr (Some prev_command) \<Rightarrow>
                 execute_command d w (say j ''Executing previous command'') prev_command
             | Inr None \<Rightarrow> (None, say j ''No previous command found''))
          else (None, j))"

declare execute_command.simps [simp del] handle_repeat.simps [simp del]

text \<open>
  What the user answers to a confirmation prompt: the result of \<open>listen\<close> in voice
  mode, the line typed in manual mode.
\<close>

record user_input =
  voice_input :: listen_result
  manual_input :: "string option"

definition handle_pending_confirmation ::
  "nat \<Rightarrow> world \<Rightarrow> jarvis \<Rightarrow> user_input \<Rightarrow> py_error option \<times> jarvis" where
  "handle_pending_confirmation d w j inp =
     (if get_pending_confirmation (session j) = None then (None, j)
      else
        (case (if current_mode j = MODE_VOICE then
                 (case voice_input inp of
                    (success, text, error) \<Rightarrow>
                      if \<not> success then Inl (say j ''I didn't hear you. Please say yes or no.'')
                      else Inr (j, text))
               else Inr (say j ''Type yes or no:'', get_manual_input (manual_input inp))) of
           Inl j' \<Rightarrow> (None, j')
         | Inr (j', text) \<Rightarrow>
             if (case text of
                   None \<Rightarrow> False
                 | Some t \<Rightarrow> t \<noteq> [] \<and> (py_in ''yes'' t \<or> py_in ''yeah'' t \<or> py_in ''sure'' t))
             then
               (case confirm_action (session j') of
                  (Some confirmed_command, s') \<Rightarrow>
                    execute_command d w (say (j'\<lparr>session := s'\<rparr>) ''Confirmed'') confirmed_command
                | (None, s') \<Rightarrow> (None, j'\<lparr>session := s'\<rparr>))
             else (None, say (j'\<lparr>session := clear_pending_confirmation (session j')\<rparr>) ''Cancelled'')))"

section \<open>Test data and derived notions\<close>

text \<open>A sequence of \<open>adjust_volume\<close> calls.\<close>

definition adjust_all :: "speech_engine \<Rightarrow> pyval list \<Rightarrow> speech_engine" where
  "adjust_all s as = foldl adjust_volume s as"

text \<open>The error kinds \<open>listen\<close> reports.\<close>

definition acquisition_error :: "string \<Rightarrow> bool" where
  "acquisition_error err =
     (err = ''timeout'' \<or> err = ''unknown'' \<or> err = ''max_retries''
      \<or> py_startswith err ''network_error: '' \<or> py_startswith err ''error: '')"

text \<open>A recognizer whose every attempt raises an exception other than the three named ones.\<close>

definition failing_recognizer :: "nat \<Rightarrow> attempt" where
  "failing_recognizer n = OtherException ''boom''"

definition quiet_world :: world where
  "quiet_world = \<lparr>reply = (\<lambda>f. ''done''), clock = 0\<rparr>"

definition open_chrome :: command where
  "open_chrome = \<lparr>action = ''open_app'', params = [(''app'', PyStr ''chrome'')]\<rparr>"


definition repeat_command :: command where
  "repeat_command = \<lparr>action = ''repeat'', params = [(''type'', PyStr ''repeat'')]\<rparr>"

text \<open>The user answers \<open>t\<close>, spoken or typed.\<close>

definition answer :: "string \<Rightarrow> user_input" where
  "answer t = \<lparr>voice_input = (True, Some t, None), manual_input = Some t\<rparr>"

text \<open>
  A session in which the user asks to open Chrome and answers the confirmation
  prompt, with \<open>yes\<close> or with \<open>no\<close>, and then, after \<open>no\<close>, asks to undo.
\<close>

definition chrome_prompt :: string where
  "chrome_prompt = ''Do you want me to open chrome? Say yes or no.''"

definition chrome_pending :: pending where
  "chrome_pending =
     \<lparr>pending_action = ''open_app'', pending_params = [(''app'', PyStr ''chrome'')],
      pending_message = chrome_prompt\<rparr>"

definition after_dispatch :: jarvis where
  "after_dispatch = snd (execute_command 3 quiet_world jarvis_init open_chrome)"

definition after_yes :: jarvis where
  "after_yes = snd (handle_pending_confirmation 3 quiet_world after_dispatch (answer ''yes''))"



section \<open>Properties of the session manager\<close>

lemma deque_append_length:
  "length xs \<le> n \<Longrightarrow> length (deque_append n xs x) \<le> n"
  by (auto simp: deque_append_def Let_def)

lemma deque_append_drop:
  assumes "xs = drop (length ys - n) ys"
  shows "deque_append n xs x = drop (length (ys @ [x]) - n) (ys @ [x])"
proof (cases "length ys < n")
  case True
  with assms show ?thesis by (simp add: deque_append_def Let_def)
next
  case False
  then have len: "length xs = n" using assms by simp
  have "tl (xs @ [x]) = drop 1 (xs @ [x])"
    by (simp add: drop_Suc del: drop_append)
  also have "\<dots> = drop 1 (drop (length ys - n) (ys @ [x]))"
    using assms by simp
  also have "\<dots> = drop (Suc (length ys) - n) (ys @ [x])"
    using False by (simp add: Suc_diff_le del: drop_append)
  finally show ?thesis using len by (simp add: deque_append_def Let_def)
qed

lemma add_all_snoc:
  "add_all s (cs @ [(c, t)]) = add_to_history (add_all s cs) c t"
  by (simp add: add_all_def)

lemma history_add_all:
  "command_history (add_all session_init cs) =
     drop (length cs - MEMORY_SIZE)
       (map (\<lambda>(c, t). \<lparr>entry_command = c, entry_timestamp = t\<rparr>) cs)"
proof (induction cs rule: rev_induct)
  case Nil
  show ?case by (simp add: add_all_def session_init_def)
next
  case (snoc ct cs)
  obtain c t where ct: "ct = (c, t)" by (cases ct)
  let ?f = "\<lambda>(c, t). \<lparr>entry_command = c, entry_timestamp = t\<rparr>"
  have "command_history (add_all session_init (cs @ [ct])) =
          deque_append MEMORY_SIZE (command_history (add_all session_init cs)) (?f ct)"
    by (simp add: ct add_all_snoc add_to_history_def)
  also have "\<dots> = drop (length (map ?f cs @ [?f ct]) - MEMORY_SIZE) (map ?f cs @ [?f ct])"
    by (rule deque_append_drop) (simp add: snoc.IH)
  finally show ?case by simp
qed

text \<open>
  C6. The command history is a FIFO buffer bounded by \<open>MEMORY_SIZE\<close> (3): after any
  sequence of \<open>add_to_history\<close> calls on a fresh session the history is never longer
  than \<open>MEMORY_SIZE\<close> and holds exactly the last \<open>MEMORY_SIZE\<close> commands inserted, in
  insertion order (the oldest were evicted first); in particular, of
  \<open>MEMORY_SIZE + 2 = 5\<close> commands the last three remain.
\<close>

theorem history_bounded_fifo:
  "MEMORY_SIZE = 3
   \<and> length (command_history (add_all session_init cs)) \<le> MEMORY_SIZE
   \<and> history_commands (add_all session_init cs) =
       drop (length cs - MEMORY_SIZE) (map fst cs)
   \<and> history_commands
         (add_all session_init [(c1, t1), (c2, t2), (c3, t3), (c4, t4), (c5, t5)]) =
       [c3, c4, c5]"
proof -
  have eq: "history_commands (add_all session_init xs) =
              drop (length xs - MEMORY_SIZE) (map fst xs)" for xs
    by (simp add: history_commands_def history_add_all drop_map split_def comp_def)
  have "length (command_history (add_all session_init cs)) \<le> MEMORY_SIZE"
    by (simp add: history_add_all)
  moreover have "history_commands
         (add_all session_init [(c1, t1), (c2, t2), (c3, t3), (c4, t4), (c5, t5)]) =
       [c3, c4, c5]"
    by (simp add: eq MEMORY_SIZE_def)
  ultimately show ?thesis using eq [of cs] by (simp add: MEMORY_SIZE_def)
qed

text \<open>
  C7. \<open>confirm_action\<close> reads and clears the pending-confirmation slot in one call:
  with a confirmation pending it returns the command made of the pending action and
  params and leaves the slot empty, every other field of the session as it was; with
  none pending it returns nothing and the session is unchanged.
\<close>

theorem confirm_action_reads_and_clears:
  "(pending_confirmation s = Some p \<longrightarrow>
      confirm_action s =
        (Some \<lparr>action = pending_action p, params = pending_params p\<rparr>,
         s\<lparr>pending_confirmation := None\<rparr>)
      \<and> get_pending_confirmation (snd (confirm_action s)) = None)
   \<and> (pending_confirmation s = None \<longrightarrow> confirm_action s = (None, s))"
  by (simp add: confirm_action_def clear_pending_confirmation_def
      get_pending_confirmation_def)

theorem confirm_action_reads_and_clears_witness:
  "confirm_action
     (session_init\<lparr>pending_confirmation :=
        Some \<lparr>pending_action = ''open_app'', pending_params = [(''app'', PyStr ''chrome'')],
              pending_message = ''Do you want me to open chrome? Say yes or no.''\<rparr>\<rparr>) =
     (Some \<lparr>action = ''open_app'', params = [(''app'', PyStr ''chrome'')]\<rparr>, session_init)
   \<and> confirm_action session_init = (None, session_init)"
  using confirm_action_reads_and_clears
    [of "session_init\<lparr>pending_confirmation :=
        Some \<lparr>pending_action = ''open_app'', pending_params = [(''app'', PyStr ''chrome'')],
              pending_message = ''Do you want me to open chrome? Say yes or no.''\<rparr>\<rparr>"
        "\<lparr>pending_action = ''open_app'', pending_params = [(''app'', PyStr ''chrome'')],
              pending_message = ''Do you want me to open chrome? Say yes or no.''\<rparr>"]
    confirm_action_reads_and_clears [of session_init]
  by (simp add: session_init_def)

section \<open>Properties of float rounding\<close>

lemma round_half_even_le: "q \<le> of_int n \<Longrightarrow> round_half_even q \<le> n"
proof -
  assume a: "q \<le> of_int n"
  then have f: "\<lfloor>q\<rfloor> \<le> n" by (simp add: floor_le_iff)
  show ?thesis
  proof (cases "\<lfloor>q\<rfloor> = n")
    case True
    then have "q = of_int n" using a of_int_floor_le [of q] by simp
    then show ?thesis by (simp add: round_half_even_def)
  next
    case False
    then have "\<lfloor>q\<rfloor> + 1 \<le> n" using f by simp
    then show ?thesis by (simp add: round_half_even_def Let_def)
  qed
qed

lemma round_half_even_ge: "of_int n \<le> q \<Longrightarrow> n \<le> round_half_even q"
proof -
  assume "of_int n \<le> q"
  then have "n \<le> \<lfloor>q\<rfloor>" by (simp add: le_floor_iff)
  then show ?thesis by (simp add: round_half_even_def Let_def)
qed

lemma pow2_diff: "(2::rat) ^ m / 2 ^ n = 2 powi (int m - int n)"
proof -
  have "(2::rat) powi (int m - int n) = 2 powi int m / 2 powi int n"
    by (rule power_int_diff) simp
  then show ?thesis by (simp only: power_int_of_nat)
qed

lemma float_exponent_bounds:
  assumes "0 < x"
  shows "2 powi (float_exponent x) \<le> x \<and> x < 2 powi (float_exponent x + 1)"
proof -
  obtain p q where pq: "quotient_of x = (p, q)" by (cases "quotient_of x")
  have q0: "0 < q" using pq by (rule quotient_of_denom_pos)
  have x: "x = of_int p / of_int q" using pq by (rule quotient_of_div)
  have p0: "0 < p" using assms q0 unfolding x by (simp add: zero_less_divide_iff)
  define a where "a = nat (bitlen p - 1)"
  define b where "b = nat (bitlen q - 1)"
  have bp: "bitlen p = int a + 1" using p0 by (simp add: a_def bitlen_alt_def)
  have bq: "bitlen q = int b + 1" using q0 by (simp add: b_def bitlen_alt_def)
  from bitlen_bounds [OF p0, unfolded bp] have p1: "2 ^ a \<le> p" and p2: "p < 2 ^ (a + 1)"
    by (simp_all add: nat_add_distrib)
  from bitlen_bounds [OF q0, unfolded bq] have q1: "2 ^ b \<le> q" and q2: "q < 2 ^ (b + 1)"
    by (simp_all add: nat_add_distrib)
  have rp1: "(2::rat) ^ a \<le> of_int p"
  proof -
    have "(of_int ((2::int) ^ a) :: rat) \<le> of_int p" using p1 by (simp only: of_int_le_iff)
    then show ?thesis by simp
  qed
  have rp2: "of_int p < (2::rat) ^ (a + 1)"
  proof -
    have "(of_int p :: rat) < of_int ((2::int) ^ (a + 1))" using p2 by (simp only: of_int_less_iff)
    then show ?thesis by simp
  qed
  have rq1: "(2::rat) ^ b \<le> of_int q"
  proof -
    have "(of_int ((2::int) ^ b) :: rat) \<le> of_int q" using q1 by (simp only: of_int_le_iff)
    then show ?thesis by simp
  qed
  have rq2: "of_int q < (2::rat) ^ (b + 1)"
  proof -
    have "(of_int q :: rat) < of_int ((2::int) ^ (b + 1))" using q2 by (simp only: of_int_less_iff)
    then show ?thesis by simp
  qed
  have rq0: "(0::rat) < of_int q" using q0 by simp
  have k: "bitlen p - bitlen q = int a - int b" by (simp add: bp bq)
  have up: "x < 2 powi (int a - int b + 1)"
  proof -
    have "x < 2 ^ (a + 1) / of_int q" unfolding x using rp2 rq0 by (simp add: divide_strict_right_mono)
    also have "\<dots> \<le> 2 ^ (a + 1) / 2 ^ b" using rq1 by (simp add: frac_le)
    also have "\<dots> = 2 powi (int (a + 1) - int b)" by (rule pow2_diff)
    finally have f: "x < 2 powi (int (a + 1) - int b)" .
    have e: "int (a + 1) - int b = int a - int b + 1" by simp
    show ?thesis using f unfolding e .
  qed
  have lo: "2 powi (int a - int b - 1) \<le> x"
  proof -
    have "(2::rat) powi (int a - int (b + 1)) = 2 ^ a / 2 ^ (b + 1)"
      by (rule pow2_diff [symmetric])
    also have "\<dots> \<le> of_int p / 2 ^ (b + 1)" using rp1 by (simp add: divide_right_mono)
    also have "\<dots> \<le> of_int p / of_int q" using rq2 rq0 p0 by (simp add: frac_le)
    finally have f: "2 powi (int a - int (b + 1)) \<le> rat_of_int p / rat_of_int q" .
    have e: "int a - int (b + 1) = int a - int b - 1" by simp
    show ?thesis using f unfolding e x .
  qed
  show ?thesis
  proof (cases "x < 2 powi (int a - int b)")
    case True
    then have "float_exponent x = int a - int b - 1"
      by (simp add: float_exponent_def pq k)
    then show ?thesis using True lo by simp
  next
    case False
    then have "float_exponent x = int a - int b"
      by (simp add: float_exponent_def pq k)
    then show ?thesis using False up by simp
  qed
qed

lemma pow2_less_imp: "(2::rat) powi m < 2 powi n \<Longrightarrow> m < n"
proof (rule ccontr)
  assume a: "(2::rat) powi m < 2 powi n" and "\<not> m < n"
  then have "n \<le> m" by simp
  then have "(2::rat) powi n \<le> 2 powi m" by (rule power_int_increasing) simp
  then show False using a by simp
qed

lemma pow2_le_imp: "(2::rat) powi m \<le> 2 powi n \<Longrightarrow> m \<le> n"
proof (rule ccontr)
  assume a: "(2::rat) powi m \<le> 2 powi n" and "\<not> m \<le> n"
  then have "n < m" by simp
  then have "(2::rat) powi n < 2 powi m" by (rule power_int_strict_increasing) simp
  then show False using a by simp
qed

lemma float_exponent_unique:
  assumes "2 powi e \<le> x" "x < 2 powi (e + 1)"
  shows "float_exponent x = e"
proof -
  have "(0::rat) < 2 powi e" by (rule zero_less_power_int) simp
  then have x0: "0 < x" using assms(1) by (rule less_le_trans)
  from float_exponent_bounds [OF x0]
  have b1: "2 powi (float_exponent x) \<le> x" and b2: "x < 2 powi (float_exponent x + 1)"
    by simp_all
  have "(2::rat) powi e < 2 powi (float_exponent x + 1)" using assms(1) b2 by simp
  then have l1: "e < float_exponent x + 1" by (rule pow2_less_imp)
  have "(2::rat) powi (float_exponent x) < 2 powi (e + 1)" using assms(2) b1 by simp
  then have l2: "float_exponent x < e + 1" by (rule pow2_less_imp)
  from l1 l2 show ?thesis by simp
qed

lemma float_ulp_pos: "0 < float_ulp x"
  unfolding float_ulp_def by (rule zero_less_power_int) simp

lemma float_round_le:
  assumes "0 < x" "x \<le> of_int n * float_ulp x"
  shows "float_round x \<le> of_int n * float_ulp x"
proof -
  have "x / float_ulp x \<le> of_int n"
    using assms(2) float_ulp_pos [of x] by (simp add: pos_divide_le_eq)
  then have "round_half_even (x / float_ulp x) \<le> n" by (rule round_half_even_le)
  then have "(of_int (round_half_even (x / float_ulp x)) :: rat) \<le> of_int n" by simp
  then have "of_int (round_half_even (x / float_ulp x)) * float_ulp x \<le> of_int n * float_ulp x"
    using float_ulp_pos [of x] by (simp add: mult_right_mono)
  then show ?thesis using assms(1) by (simp add: float_round_def)
qed

lemma float_round_ge:
  assumes "0 < x" "of_int n * float_ulp x \<le> x"
  shows "of_int n * float_ulp x \<le> float_round x"
proof -
  have "of_int n \<le> x / float_ulp x"
    using assms(2) float_ulp_pos [of x] by (simp add: pos_le_divide_eq)
  then have "n \<le> round_half_even (x / float_ulp x)" by (rule round_half_even_ge)
  then have "(of_int n :: rat) \<le> of_int (round_half_even (x / float_ulp x))" by simp
  then have "of_int n * float_ulp x \<le> of_int (round_half_even (x / float_ulp x)) * float_ulp x"
    using float_ulp_pos [of x] by (simp add: mult_right_mono)
  then show ?thesis using assms(1) by (simp add: float_round_def)
qed

lemma float_round_nonpos:
  assumes "x \<le> 0"
  shows "float_round x \<le> 0"
proof (cases "x = 0")
  case True
  then show ?thesis by (simp add: float_round_def)
next
  case False
  then have x: "0 < - x" using assms by simp
  have "of_int 0 * float_ulp (- x) \<le> float_round (- x)"
    by (rule float_round_ge [OF x]) (use x in simp)
  moreover have "float_round x = - float_round (- x)"
    using x False by (simp add: float_round_def)
  ultimately show ?thesis by simp
qed

lemma pow2_split: "k \<le> 0 \<Longrightarrow> of_int (2 ^ nat (- k)) * (2::rat) powi k = 1"
proof -
  assume "k \<le> 0"
  then have "(2::rat) powi (- k) = 2 ^ nat (- k)" by (simp add: power_int_nonneg_exp)
  then have "of_int (2 ^ nat (- k)) * (2::rat) powi k = 2 powi (- k) * 2 powi k" by simp
  also have "\<dots> = 2 powi (- k + k)" by (rule power_int_add [symmetric]) simp
  finally show ?thesis by simp
qed

lemma float_round_le_one:
  assumes "x \<le> 1"
  shows "float_round x \<le> 1"
proof (cases "0 < x")
  case False
  then have "float_round x \<le> 0" by (simp add: float_round_nonpos)
  then show ?thesis by simp
next
  case True
  define k where "k = max (float_exponent x) (- 1022) - 52"
  have "2 powi (float_exponent x) \<le> x" using float_exponent_bounds [OF True] by simp
  then have "(2::rat) powi (float_exponent x) \<le> 2 powi 0" using assms by simp
  then have "float_exponent x \<le> 0" by (rule pow2_le_imp)
  then have k: "k \<le> 0" by (simp add: k_def)
  have u: "float_ulp x = 2 powi k" by (simp add: float_ulp_def k_def)
  have one: "of_int (2 ^ nat (- k)) * float_ulp x = 1" unfolding u using k by (rule pow2_split)
  have "float_round x \<le> of_int (2 ^ nat (- k)) * float_ulp x"
    by (rule float_round_le [OF True]) (simp only: one assms)
  then show ?thesis by (simp only: one)
qed

lemma float_round_ge_pow:
  assumes "0 < x" "- 1022 \<le> float_exponent x"
  shows "2 powi (float_exponent x) \<le> float_round x"
proof -
  have u: "float_ulp x = 2 powi (float_exponent x - 52)"
    using assms(2) by (simp add: float_ulp_def max_def)
  have "(2::rat) powi (52 + (float_exponent x - 52)) = 2 powi 52 * 2 powi (float_exponent x - 52)"
    by (rule power_int_add) simp
  then have p: "of_int (2 ^ 52) * float_ulp x = 2 powi (float_exponent x)"
    unfolding u by simp
  have "of_int (2 ^ 52) * float_ulp x \<le> float_round x"
    by (rule float_round_ge [OF assms(1)])
      (simp only: p float_exponent_bounds [OF assms(1)])
  then show ?thesis by (simp only: p)
qed

lemma float_round_eval:
  assumes "2 powi e \<le> x" "x < 2 powi (e + 1)" "- 1022 \<le> e"
  shows "float_round x = of_int (round_half_even (x / 2 powi (e - 52))) * 2 powi (e - 52)"
proof -
  have e: "float_exponent x = e" using assms(1,2) by (rule float_exponent_unique)
  have "(0::rat) < 2 powi e" by (rule zero_less_power_int) simp
  then have x0: "0 < x" using assms(1) by (rule less_le_trans)
  show ?thesis using x0 assms(3) by (simp add: float_round_def float_ulp_def e max_def)
qed

lemma floor_numeral_div:
  "\<lfloor>numeral a / numeral b :: rat\<rfloor> = numeral a div numeral b"
  using floor_divide_of_int_eq [of "numeral a" "numeral b", where ?'a = rat] by simp

lemma float_lit_0_2: "float_lit (2/10) = 3602879701896397 / 18014398509481984"
  unfolding float_lit_def
  by (simp add: float_round_eval [of "-3"] round_half_even_def Let_def power_int_minus floor_numeral_div)

lemma float_lit_0_9: "float_lit (9/10) = 8106479329266893 / 9007199254740992"
  unfolding float_lit_def
  by (simp add: float_round_eval [of "-1"] round_half_even_def Let_def power_int_minus floor_numeral_div)

lemma float_lit_1: "float_lit 1 = 1"
  unfolding float_lit_def
  by (simp add: float_round_eval [of 0] round_half_even_def Let_def power_int_minus floor_numeral_div)

lemma float_round_ge_0_2:
  assumes "float_lit (2/10) \<le> x"
  shows "float_lit (2/10) \<le> float_round x"
proof -
  let ?c = "3602879701896397 / 18014398509481984 :: rat"
  have c: "?c \<le> x" using assms by (simp only: float_lit_0_2)
  then have x0: "0 < x" by simp
  have "(2::rat) powi (- 3) \<le> ?c" by (simp add: power_int_minus)
  then have "(2::rat) powi (- 3) < 2 powi (float_exponent x + 1)"
    using c float_exponent_bounds [OF x0] by simp
  then have "- 3 < float_exponent x + 1" by (rule pow2_less_imp)
  then have e: "- 3 \<le> float_exponent x" by simp
  show ?thesis
  proof (cases "float_exponent x = - 3")
    case True
    have u: "float_ulp x = 1 / 2 ^ 55" by (simp add: float_ulp_def True power_int_minus_divide)
    have m: "of_int 7205759403792794 * float_ulp x = ?c" unfolding u by simp
    have "of_int 7205759403792794 * float_ulp x \<le> float_round x"
      by (rule float_round_ge [OF x0]) (simp only: m c)
    then show ?thesis by (simp only: m float_lit_0_2)
  next
    case False
    then have "- 2 \<le> float_exponent x" using e by simp
    then have "(2::rat) powi (- 2) \<le> 2 powi (float_exponent x)"
      by (rule power_int_increasing) simp
    moreover have "?c \<le> (2::rat) powi (- 2)" by (simp add: power_int_minus)
    moreover have "2 powi (float_exponent x) \<le> float_round x"
      by (rule float_round_ge_pow [OF x0]) (use e in simp)
    ultimately show ?thesis by (simp only: float_lit_0_2)
  qed
qed

section \<open>Properties of the speech engine\<close>

lemma apply_voice_style_base_volume:
  "base_volume (apply_voice_style s style) = base_volume s"
  by (simp add: apply_voice_style_def split: pyval.splits option.splits prod.splits)

lemma apply_voice_style_is_muted:
  "is_muted (apply_voice_style s style) = is_muted s"
  by (simp add: apply_voice_style_def split: pyval.splits option.splits prod.splits)

lemma adjust_volume_base_volume:
  "base_volume (adjust_volume s a) =
     (if a = PyStr ''louder'' then min 1 (float_add (base_volume s) (float_lit (2/10)))
      else if a = PyStr ''softer'' then
        max (float_lit (2/10)) (float_sub (base_volume s) (float_lit (2/10)))
      else base_volume s)"
  by (simp add: adjust_volume_def Let_def apply_voice_style_base_volume float_lit_1)

lemma float_lit_1_5: "float_lit (1/5) = 3602879701896397 / 18014398509481984"
  using float_lit_0_2 by simp

lemma float_lit_0_2_bounds: "0 < float_lit (2/10) \<and> float_lit (2/10) \<le> 1"
  unfolding float_lit_0_2 by simp

lemma adjust_volume_bounds:
  assumes "float_lit (2/10) \<le> base_volume s" "base_volume s \<le> 1"
  shows "float_lit (2/10) \<le> base_volume (adjust_volume s a)
    \<and> base_volume (adjust_volume s a) \<le> 1"
proof -
  let ?c = "float_lit (2/10)"
  have c: "0 < ?c" "?c \<le> 1" using float_lit_0_2_bounds by simp_all
  have "?c \<le> base_volume s + ?c" using assms(1) c(1) by simp
  then have up: "?c \<le> float_add (base_volume s) ?c"
    unfolding float_add_def by (rule float_round_ge_0_2)
  have "base_volume s - ?c \<le> 1" using assms(2) c(1) by simp
  then have down: "float_sub (base_volume s) ?c \<le> 1"
    unfolding float_sub_def by (rule float_round_le_one)
  show ?thesis
    unfolding adjust_volume_base_volume using assms c(2) up down by (simp add: min_def max_def)
qed

lemma adjust_all_bounds:
  "float_lit (2/10) \<le> base_volume s \<Longrightarrow> base_volume s \<le> 1 \<Longrightarrow>
   float_lit (2/10) \<le> base_volume (adjust_all s as) \<and> base_volume (adjust_all s as) \<le> 1"
proof (induction as arbitrary: s)
  case Nil
  then show ?case by (simp add: adjust_all_def)
next
  case (Cons a as)
  have step: "float_lit (2/10) \<le> base_volume (adjust_volume s a)
      \<and> base_volume (adjust_volume s a) \<le> 1"
    using Cons.prems by (rule adjust_volume_bounds)
  have "adjust_all s (a # as) = adjust_all (adjust_volume s a) as"
    by (simp add: adjust_all_def)
  then show ?case using Cons.IH [of "adjust_volume s a"] step by presburger
qed

lemma speech_init_base_volume: "base_volume speech_init = float_lit (9/10)"
  by (simp add: speech_init_def apply_voice_style_base_volume)

lemma speech_init_bounds:
  "float_lit (2/10) \<le> base_volume speech_init \<and> base_volume speech_init \<le> 1"
  unfolding speech_init_base_volume float_lit_0_2 float_lit_0_9 by simp

text \<open>The float operations the witness below evaluates, with the values Python prints.\<close>

lemma float_examples:
  "float_add (float_lit (9/10)) (float_lit (2/10)) = 2476979795053773 / 2251799813685248"
  "float_sub (float_lit (9/10)) (float_lit (2/10)) = 3152519739159347 / 4503599627370496"
  "float_sub (3152519739159347 / 4503599627370496) (float_lit (2/10))
     = 9007199254740991 / 18014398509481984"
  "float_add (3152519739159347 / 4503599627370496) (float_lit (2/10))
     = 2026619832316723 / 2251799813685248"
  "float_mul (float_lit (9/10)) (float_lit (9/10)) = 1823957849085051 / 2251799813685248"
  "float_mul (float_lit (9/10)) 1 = 8106479329266893 / 9007199254740992"
  "float_mul (float_lit (9/10)) (3152519739159347 / 4503599627370496)
     = 5674535530486825 / 9007199254740992"
  unfolding float_add_def float_sub_def float_mul_def float_lit_0_2 float_lit_0_9
  by (simp_all add: float_round_eval [of 0] float_round_eval [of "-1"] float_round_eval [of "-2"]
      round_half_even_def Let_def power_int_minus floor_numeral_div)

text \<open>
  C10. The base volume starts at 0.9 and every \<open>adjust_volume\<close> call keeps it within
  [0.2, 1.0]: \<open>louder\<close> adds 0.2 clamped at 1.0, \<open>softer\<close> subtracts 0.2 clamped at
  0.2, and both apply the current voice style again (the engine's volume becomes the
  style's volume times the new base volume); \<open>mute\<close> toggles \<open>is_muted\<close> (twice gives
  the state back) and leaves the base volume as it was; any other adjustment, \<open>None\<close>
  included, changes nothing. The sums, differences and products are those of floats:
  each is rounded, and the bounds hold of the rounded values.
\<close>

theorem adjust_volume_invariant:
  "base_volume speech_init = float_lit (9/10)
   \<and> float_lit (2/10) \<le> base_volume (adjust_all speech_init as)
   \<and> base_volume (adjust_all speech_init as) \<le> 1
   \<and> (float_lit (2/10) \<le> base_volume s \<and> base_volume s \<le> 1 \<longrightarrow>
        float_lit (2/10) \<le> base_volume (adjust_volume s a)
        \<and> base_volume (adjust_volume s a) \<le> 1)
   \<and> adjust_volume s (PyStr ''louder'') =
        apply_voice_style
          (s\<lparr>base_volume := min 1 (float_add (base_volume s) (float_lit (2/10)))\<rparr>)
          (PyStr (current_voice_style s))
   \<and> base_volume (adjust_volume s (PyStr ''louder''))
        = min 1 (float_add (base_volume s) (float_lit (2/10)))
   \<and> adjust_volume s (PyStr ''softer'') =
        apply_voice_style
          (s\<lparr>base_volume :=
               max (float_lit (2/10)) (float_sub (base_volume s) (float_lit (2/10)))\<rparr>)
          (PyStr (current_voice_style s))
   \<and> base_volume (adjust_volume s (PyStr ''softer''))
        = max (float_lit (2/10)) (float_sub (base_volume s) (float_lit (2/10)))
   \<and> (map_of VOICE_STYLES (current_voice_style s) = Some (rate, volume) \<longrightarrow>
        tts_volume (adjust_volume s (PyStr ''louder''))
          = float_mul volume (min 1 (float_add (base_volume s) (float_lit (2/10))))
        \<and> tts_volume (adjust_volume s (PyStr ''softer''))
          = float_mul volume
              (max (float_lit (2/10)) (float_sub (base_volume s) (float_lit (2/10))))
        \<and> tts_rate (adjust_volume s (PyStr ''louder'')) = rate
        \<and> tts_rate (adjust_volume s (PyStr ''softer'')) = rate)
   \<and> adjust_volume s (PyStr ''mute'') = s\<lparr>is_muted := \<not> is_muted s\<rparr>
   \<and> adjust_volume (adjust_volume s (PyStr ''mute'')) (PyStr ''mute'') = s
   \<and> (a \<noteq> PyStr ''louder'' \<and> a \<noteq> PyStr ''softer'' \<and> a \<noteq> PyStr ''mute'' \<longrightarrow>
        adjust_volume s a = s)
   \<and> adjust_volume s PyNone = s"
proof -
  have reach: "float_lit (2/10) \<le> base_volume (adjust_all speech_init as)
      \<and> base_volume (adjust_all speech_init as) \<le> 1"
    using speech_init_bounds adjust_all_bounds by blast
  have style: "map_of VOICE_STYLES (current_voice_style s) = Some (rate, volume) \<longrightarrow>
        tts_volume (adjust_volume s (PyStr ''louder''))
          = float_mul volume (min 1 (float_add (base_volume s) (float_lit (2/10))))
        \<and> tts_volume (adjust_volume s (PyStr ''softer''))
          = float_mul volume
              (max (float_lit (2/10)) (float_sub (base_volume s) (float_lit (2/10))))
        \<and> tts_rate (adjust_volume s (PyStr ''louder'')) = rate
        \<and> tts_rate (adjust_volume s (PyStr ''softer'')) = rate"
    by (simp add: adjust_volume_def Let_def apply_voice_style_def float_lit_1)
  have step: "float_lit (2/10) \<le> base_volume s \<and> base_volume s \<le> 1 \<longrightarrow>
        float_lit (2/10) \<le> base_volume (adjust_volume s a)
        \<and> base_volume (adjust_volume s a) \<le> 1"
    using adjust_volume_bounds [of s a] by blast
  have lo: "adjust_volume s (PyStr ''louder'') =
        apply_voice_style
          (s\<lparr>base_volume := min 1 (float_add (base_volume s) (float_lit (2/10)))\<rparr>)
          (PyStr (current_voice_style s))"
    by (simp add: adjust_volume_def Let_def float_lit_1)
  have so: "adjust_volume s (PyStr ''softer'') =
        apply_voice_style
          (s\<lparr>base_volume :=
               max (float_lit (2/10)) (float_sub (base_volume s) (float_lit (2/10)))\<rparr>)
          (PyStr (current_voice_style s))"
    by (simp add: adjust_volume_def Let_def float_lit_1)
  have mu: "adjust_volume s (PyStr ''mute'') = s\<lparr>is_muted := \<not> is_muted s\<rparr>"
    by (simp add: adjust_volume_def)
  have mu2: "adjust_volume (adjust_volume s (PyStr ''mute'')) (PyStr ''mute'') = s"
    by (simp add: adjust_volume_def)
  have ot: "a \<noteq> PyStr ''louder'' \<and> a \<noteq> PyStr ''softer'' \<and> a \<noteq> PyStr ''mute'' \<longrightarrow>
        adjust_volume s a = s"
    by (simp add: adjust_volume_def)
  have no: "adjust_volume s PyNone = s" by (simp add: adjust_volume_def)
  have bl: "base_volume (adjust_volume s (PyStr ''louder''))
        = min 1 (float_add (base_volume s) (float_lit (2/10)))"
    by (simp add: adjust_volume_base_volume)
  have bs: "base_volume (adjust_volume s (PyStr ''softer''))
        = max (float_lit (2/10)) (float_sub (base_volume s) (float_lit (2/10)))"
    by (simp add: adjust_volume_base_volume)
  from speech_init_base_volume reach step lo bl so bs style mu mu2 ot no
  show ?thesis by (intro conjI) (rule conjunct1, assumption | rule conjunct2, assumption | assumption)+
qed

theorem adjust_volume_invariant_witness:
  "float_lit (2/10) \<le> base_volume speech_init \<and> base_volume speech_init \<le> 1
   \<and> map_of VOICE_STYLES (current_voice_style speech_init) = Some (150, float_lit (9/10))
   \<and> base_volume (adjust_volume speech_init (PyStr ''louder'')) = 1
   \<and> tts_volume (adjust_volume speech_init (PyStr ''louder''))
       = 8106479329266893 / 9007199254740992
   \<and> base_volume (adjust_volume speech_init (PyStr ''softer''))
       = 3152519739159347 / 4503599627370496
   \<and> tts_volume (adjust_volume speech_init (PyStr ''softer''))
       = 5674535530486825 / 9007199254740992
   \<and> base_volume (adjust_volume (adjust_volume speech_init (PyStr ''softer'')) (PyStr ''softer''))
       = 9007199254740991 / 18014398509481984
   \<and> base_volume (adjust_volume (adjust_volume speech_init (PyStr ''softer'')) (PyStr ''louder''))
       = 2026619832316723 / 2251799813685248
   \<and> float_lit (2/10) \<le> base_volume (adjust_volume speech_init (PyStr ''softer''))
   \<and> base_volume (adjust_volume speech_init (PyStr ''softer'')) \<le> 1
   \<and> adjust_volume speech_init (PyStr ''up'') = speech_init"
proof -
  note th = adjust_volume_invariant
      [where s = speech_init and a = "PyStr ''up''" and rate = 150
        and volume = "float_lit (9/10)"]
  note th1 = adjust_volume_invariant
      [where s = speech_init and a = "PyStr ''softer''"]
  note th2 = adjust_volume_invariant
      [where s = "adjust_volume speech_init (PyStr ''softer'')"]
  have cs: "current_voice_style speech_init = ''formal''"
    by (simp add: speech_init_def apply_voice_style_def VOICE_STYLES_def DEFAULT_VOICE_STYLE_def)
  have m: "map_of VOICE_STYLES (current_voice_style speech_init) = Some (150, float_lit (9/10))"
    by (simp add: cs VOICE_STYLES_def)
  have b: "float_lit (2/10) \<le> base_volume speech_init \<and> base_volume speech_init \<le> 1"
    by (rule speech_init_bounds)
  have ne: "PyStr ''up'' \<noteq> PyStr ''louder'' \<and> PyStr ''up'' \<noteq> PyStr ''softer''
      \<and> PyStr ''up'' \<noteq> PyStr ''mute''"
    by simp
  from th have bv: "base_volume speech_init = float_lit (9/10)" by blast
  from th ne have up: "adjust_volume speech_init (PyStr ''up'') = speech_init" by blast
  from th have lo: "base_volume (adjust_volume speech_init (PyStr ''louder''))
      = min 1 (float_add (base_volume speech_init) (float_lit (2/10)))" by blast
  from th have so: "base_volume (adjust_volume speech_init (PyStr ''softer''))
      = max (float_lit (2/10)) (float_sub (base_volume speech_init) (float_lit (2/10)))" by blast
  from th m have tv: "tts_volume (adjust_volume speech_init (PyStr ''louder''))
        = float_mul (float_lit (9/10))
            (min 1 (float_add (base_volume speech_init) (float_lit (2/10))))
      \<and> tts_volume (adjust_volume speech_init (PyStr ''softer''))
        = float_mul (float_lit (9/10))
            (max (float_lit (2/10)) (float_sub (base_volume speech_init) (float_lit (2/10))))"
    by blast
  from th1 b have st: "float_lit (2/10) \<le> base_volume (adjust_volume speech_init (PyStr ''softer''))
      \<and> base_volume (adjust_volume speech_init (PyStr ''softer'')) \<le> 1" by blast
  from th2 have ss: "base_volume (adjust_volume (adjust_volume speech_init (PyStr ''softer''))
        (PyStr ''softer''))
      = max (float_lit (2/10))
          (float_sub (base_volume (adjust_volume speech_init (PyStr ''softer'')))
             (float_lit (2/10)))" by blast
  from th2 have sl: "base_volume (adjust_volume (adjust_volume speech_init (PyStr ''softer''))
        (PyStr ''louder''))
      = min 1 (float_add (base_volume (adjust_volume speech_init (PyStr ''softer'')))
          (float_lit (2/10)))" by blast
  have lo': "base_volume (adjust_volume speech_init (PyStr ''louder'')) = 1"
    unfolding lo bv float_examples by simp
  have so': "base_volume (adjust_volume speech_init (PyStr ''softer''))
      = 3152519739159347 / 4503599627370496"
    unfolding so bv float_examples by (simp add: float_lit_1_5)
  have tl: "tts_volume (adjust_volume speech_init (PyStr ''louder''))
      = 8106479329266893 / 9007199254740992"
    unfolding conjunct1 [OF tv] lo [symmetric] lo' by (rule float_examples)
  have ts: "tts_volume (adjust_volume speech_init (PyStr ''softer''))
      = 5674535530486825 / 9007199254740992"
    unfolding conjunct2 [OF tv] so [symmetric] so' by (rule float_examples)
  have ss': "base_volume (adjust_volume (adjust_volume speech_init (PyStr ''softer''))
        (PyStr ''softer'')) = 9007199254740991 / 18014398509481984"
    unfolding ss so' float_examples by (simp add: float_lit_1_5)
  have sl': "base_volume (adjust_volume (adjust_volume speech_init (PyStr ''softer''))
        (PyStr ''louder'')) = 2026619832316723 / 2251799813685248"
    unfolding sl so' float_examples by simp
  from b m lo' tl so' ts ss' sl' st up
  show ?thesis by (intro conjI) (rule conjunct1, assumption | rule conjunct2, assumption | assumption)+
qed

section \<open>Speech errors\<close>

lemma py_startswith_append: "py_startswith (p @ r) p"
  by (induction p) auto

lemma py_in_prefix: "py_in p (p @ r)"
proof (cases "p @ r")
  case Nil
  then show ?thesis by simp
next
  case (Cons x xs)
  have "py_startswith (p @ r) p" by (rule py_startswith_append)
  then show ?thesis using Cons by simp
qed

lemma acquisition_error_simps:
  "acquisition_error ''timeout''" "acquisition_error ''unknown''"
  "acquisition_error ''max_retries''"
  "acquisition_error (''network_error: '' @ d)" "acquisition_error (''error: '' @ d)"
  by (simp_all add: acquisition_error_def)

lemma listen_from_failure:
  "listen_from env r = (False, t, e) \<Longrightarrow> \<exists>err. e = Some err \<and> acquisition_error err"
proof (induction env r rule: listen_from.induct)
  case (1 env retries)
  note prems = "1.prems" [unfolded listen_from.simps [of env retries]]
  show ?case
  proof (cases "retries < MAX_RECOGNITION_RETRIES")
    case False
    then have "e = Some ''max_retries''" using prems by simp
    then show ?thesis by (simp add: acquisition_error_simps)
  next
    case True
    show ?thesis
    proof (cases "env retries")
      case (Heard x)
      then show ?thesis using True prems by simp
    next
      case WaitTimeoutError
      show ?thesis
      proof (cases "retries + 1 < MAX_RECOGNITION_RETRIES")
        case more: True
        then have "listen_from env (retries + 1) = (False, t, e)"
          using True WaitTimeoutError prems by simp
        then show ?thesis using "1.IH"(1) True WaitTimeoutError more by blast
      next
        case False
        then have "e = Some ''timeout''" using True WaitTimeoutError prems by simp
        then show ?thesis by (simp add: acquisition_error_simps)
      qed
    next
      case UnknownValueError
      show ?thesis
      proof (cases "retries + 1 < MAX_RECOGNITION_RETRIES")
        case more: True
        then have "listen_from env (retries + 1) = (False, t, e)"
          using True UnknownValueError prems by simp
        then show ?thesis using "1.IH"(2) True UnknownValueError more by blast
      next
        case False
        then have "e = Some ''unknown''" using True UnknownValueError prems by simp
        then show ?thesis by (simp add: acquisition_error_simps)
      qed
    next
      case (RequestError x)
      then have "e = Some (''network_error: '' @ x)" using True prems by simp
      then show ?thesis by (simp add: acquisition_error_def)
    next
      case (OtherException x)
      then have "e = Some (''error: '' @ x)" using True prems by simp
      then show ?thesis by (simp add: acquisition_error_def)
    qed
  qed
qed

lemma say_fields:
  "current_mode (say j t) = current_mode j" "is_running (say j t) = is_running j"
  "session (say j t) = session j" "calls (say j t) = calls j"
  by (simp_all add: say_def)

lemma handle_speech_error_manual:
  "error = ''timeout'' \<or> error = ''unknown'' \<or> py_in ''network_error'' error
      \<or> error = ''max_retries'' \<Longrightarrow>
   current_mode (handle_speech_error j error) = MODE_MANUAL"
  unfolding handle_speech_error_def by auto

lemma handle_speech_error_other:
  "error \<noteq> ''timeout'' \<Longrightarrow> error \<noteq> ''unknown'' \<Longrightarrow> \<not> py_in ''network_error'' error \<Longrightarrow>
   error \<noteq> ''max_retries'' \<Longrightarrow> handle_speech_error j error = say j (''Error: '' @ error)"
  unfolding handle_speech_error_def by simp

lemma handle_speech_error_keeps:
  "is_running (handle_speech_error j error) = is_running j"
  "session (handle_speech_error j error) = session j"
  "calls (handle_speech_error j error) = calls j"
  unfolding handle_speech_error_def by (simp_all add: say_fields)

text \<open>
  C9 (as the code has it). \<open>listen\<close> reports a failure as one of the error kinds
  \<open>timeout\<close>, \<open>unknown\<close>, \<open>max_retries\<close>, \<open>network_error: <detail>\<close> and
  \<open>error: <detail>\<close>. The speech-error handler sets the mode to manual for \<open>timeout\<close>,
  \<open>unknown\<close>, \<open>max_retries\<close> and every error text containing \<open>network_error\<close>; for
  any other error (the kind \<open>error: <detail>\<close>) it only speaks the error and leaves the
  mode as it was. In every case it returns, leaves \<open>is_running\<close> and the session as
  they were and calls no handler.
\<close>

theorem speech_error_modes:
  "(error = ''timeout'' \<or> error = ''unknown'' \<or> py_in ''network_error'' error
      \<or> error = ''max_retries'' \<longrightarrow>
      current_mode (handle_speech_error j error) = MODE_MANUAL)
   \<and> (error \<noteq> ''timeout'' \<and> error \<noteq> ''unknown'' \<and> \<not> py_in ''network_error'' error
      \<and> error \<noteq> ''max_retries'' \<longrightarrow>
      handle_speech_error j error = say j (''Error: '' @ error)
      \<and> current_mode (handle_speech_error j error) = current_mode j)
   \<and> current_mode (handle_speech_error j (''network_error: '' @ d)) = MODE_MANUAL
   \<and> is_running (handle_speech_error j error) = is_running j
   \<and> session (handle_speech_error j error) = session j
   \<and> calls (handle_speech_error j error) = calls j
   \<and> (fst (listen env) = False \<longrightarrow>
        (\<exists>err. snd (snd (listen env)) = Some err \<and> acquisition_error err))"
proof (intro conjI impI)
  assume "error = ''timeout'' \<or> error = ''unknown'' \<or> py_in ''network_error'' error
      \<or> error = ''max_retries''"
  then show "current_mode (handle_speech_error j error) = MODE_MANUAL"
    by (rule handle_speech_error_manual)
next
  assume a: "error \<noteq> ''timeout'' \<and> error \<noteq> ''unknown'' \<and> \<not> py_in ''network_error'' error
      \<and> error \<noteq> ''max_retries''"
  then show o: "handle_speech_error j error = say j (''Error: '' @ error)"
    by (simp add: handle_speech_error_other)
  show "current_mode (handle_speech_error j error) = current_mode j"
    unfolding o by (simp add: say_fields)
next
  have "py_in ''network_error'' (''network_error'' @ ('': '' @ d))"
    by (rule py_in_prefix)
  then have "py_in ''network_error'' (''network_error: '' @ d)" by simp
  then show "current_mode (handle_speech_error j (''network_error: '' @ d)) = MODE_MANUAL"
    by (simp add: handle_speech_error_manual)
next
  show "is_running (handle_speech_error j error) = is_running j"
    by (rule handle_speech_error_keeps)
  show "session (handle_speech_error j error) = session j"
    by (rule handle_speech_error_keeps)
  show "calls (handle_speech_error j error) = calls j"
    by (rule handle_speech_error_keeps)
next
  assume f: "fst (listen env) = False"
  obtain b t e where r: "listen_from env 0 = (b, t, e)"
    by (cases "listen_from env 0") auto
  with f have r': "listen_from env 0 = (False, t, e)" by (simp add: listen_def)
  have e: "snd (snd (listen env)) = e" by (simp add: listen_def r)
  from listen_from_failure [OF r'] show
    "\<exists>err. snd (snd (listen env)) = Some err \<and> acquisition_error err"
    unfolding e .
qed

theorem speech_error_modes_witness:
  "current_mode (handle_speech_error jarvis_init ''timeout'') = MODE_MANUAL
   \<and> handle_speech_error jarvis_init ''error: boom'' = say jarvis_init ''Error: error: boom''
   \<and> fst (listen failing_recognizer) = False
   \<and> snd (snd (listen failing_recognizer)) = Some ''error: boom''
   \<and> acquisition_error ''error: boom''"
proof -
  have l: "listen failing_recognizer = (False, None, Some ''error: boom'')"
    by (simp add: listen_def listen_from.simps [of failing_recognizer 0] failing_recognizer_def
        MAX_RECOGNITION_RETRIES_def)
  have n: "\<not> py_in ''network_error'' ''error: boom''" by simp
  show ?thesis
    using speech_error_modes [of "''timeout''" jarvis_init "[]" failing_recognizer]
      speech_error_modes [of "''error: boom''" jarvis_init "[]" failing_recognizer] n
    by (simp add: l)
qed

text \<open>
  C9 as stated fails: a recognizer raising an exception other than the three named ones
  makes \<open>listen\<close> report \<open>error: boom\<close>, and the handler leaves the mode at voice.
\<close>

theorem speech_error_other_keeps_voice:
  "listen failing_recognizer = (False, None, Some ''error: boom'')
   \<and> current_mode jarvis_init = MODE_VOICE
   \<and> current_mode (handle_speech_error jarvis_init ''error: boom'') = MODE_VOICE
   \<and> MODE_VOICE \<noteq> MODE_MANUAL"
proof -
  have l: "listen failing_recognizer = (False, None, Some ''error: boom'')"
    by (simp add: listen_def listen_from.simps [of failing_recognizer 0] failing_recognizer_def
        MAX_RECOGNITION_RETRIES_def)
  have h: "handle_speech_error jarvis_init ''error: boom'' = say jarvis_init ''Error: error: boom''"
    unfolding handle_speech_error_def by simp
  have m: "current_mode jarvis_init = MODE_VOICE" by (simp add: jarvis_init_def)
  show ?thesis
    unfolding h by (simp add: l m say_fields MODE_VOICE_def MODE_MANUAL_def)
qed

section \<open>The confirmation flow\<close>

lemma request_confirmation_calls:
  "calls (snd (request_confirmation j c)) = calls j"
  unfolding request_confirmation_def Let_def
  by (simp add: say_fields split: sum.splits)



lemma execute_command_gated:
  "needs_confirmation (action c) \<Longrightarrow> pending_confirmation (session j) = None \<Longrightarrow>
   execute_command (Suc d) w j c =
     request_confirmation (j\<lparr>session := add_to_history (session j) c (clock w)\<rparr>) c"
  by (simp add: execute_command.simps Let_def get_pending_confirmation_def add_to_history_def)

lemma execute_command_gated_calls:
  assumes "needs_confirmation (action c)" "pending_confirmation (session j) = None"
  shows "calls (snd (execute_command d w j c)) = calls j"
proof (cases d)
  case 0
  then show ?thesis by (simp add: execute_command.simps)
next
  case (Suc d')
  show ?thesis
    unfolding Suc execute_command_gated [OF assms] request_confirmation_calls by simp
qed

lemma confirm_action_Some:
  "pending_confirmation s = Some p \<Longrightarrow>
   confirm_action s = (Some \<lparr>action = pending_action p, params = pending_params p\<rparr>,
                       s\<lparr>pending_confirmation := None\<rparr>)"
  by (simp add: confirm_action_def clear_pending_confirmation_def)


lemma negative_response_cancels:
  assumes "pending_confirmation (session j) = Some p"
    "(current_mode j = MODE_VOICE \<and> voice_input inp = (True, heard, e))
     \<or> (current_mode j \<noteq> MODE_VOICE \<and> get_manual_input (manual_input inp) = heard)"
    "\<not> (case heard of None \<Rightarrow> False
         | Some t \<Rightarrow> t \<noteq> [] \<and> (py_in ''yes'' t \<or> py_in ''yeah'' t \<or> py_in ''sure'' t))"
  shows "fst (handle_pending_confirmation d w j inp) = None
    \<and> calls (snd (handle_pending_confirmation d w j inp)) = calls j
    \<and> pending_confirmation (session (snd (handle_pending_confirmation d w j inp))) = None"
proof (cases "current_mode j = MODE_VOICE")
  case True
  then have v: "voice_input inp = (True, heard, e)" using assms(2) by simp
  show ?thesis
    unfolding handle_pending_confirmation_def
    using assms(1,3) True v
    by (simp add: get_pending_confirmation_def say_fields clear_pending_confirmation_def)
next
  case False
  then have m: "get_manual_input (manual_input inp) = heard" using assms(2) by simp
  show ?thesis
    unfolding handle_pending_confirmation_def
    using assms(1,3) False m
    by (simp add: get_pending_confirmation_def say_fields clear_pending_confirmation_def)
qed

lemma request_confirmation_open_chrome:
  "request_confirmation j open_chrome =
     (None, say (j\<lparr>session := (session j)\<lparr>pending_confirmation := Some chrome_pending\<rparr>\<rparr>)
              chrome_prompt)"
  unfolding request_confirmation_def Let_def
  by (simp add: open_chrome_def py_getitem_def set_pending_confirmation_def chrome_pending_def
      chrome_prompt_def)

lemma needs_confirmation_open_chrome: "needs_confirmation (action open_chrome)"
  by (simp add: needs_confirmation_def open_chrome_def)

lemma dispatch_open_chrome:
  "pending_confirmation (session j) = None \<Longrightarrow>
   execute_command (Suc d) w j open_chrome =
     (None, say (j\<lparr>session := (add_to_history (session j) open_chrome (clock w))
                        \<lparr>pending_confirmation := Some chrome_pending\<rparr>\<rparr>) chrome_prompt)"
  by (simp only: execute_command_gated [OF needs_confirmation_open_chrome]
      request_confirmation_open_chrome) simp

lemma after_dispatch_eq:
  "execute_command 3 quiet_world jarvis_init open_chrome =
     (None, say (jarvis_init\<lparr>session := (add_to_history session_init open_chrome 0)
                        \<lparr>pending_confirmation := Some chrome_pending\<rparr>\<rparr>) chrome_prompt)"
proof -
  have p: "pending_confirmation (session jarvis_init) = None"
    by (simp add: jarvis_init_def session_init_def)
  show ?thesis
    unfolding numeral_3_eq_3 dispatch_open_chrome [OF p]
    by (simp add: jarvis_init_def quiet_world_def)
qed

lemma after_dispatch_fields:
  "calls after_dispatch = []"
  "pending_confirmation (session after_dispatch) = Some chrome_pending"
  "current_mode after_dispatch = MODE_VOICE"
  "history_commands (session after_dispatch) = [open_chrome]"
  "spoken (speech after_dispatch) = [chrome_prompt]"
  "is_muted (speech after_dispatch) = False"
  unfolding after_dispatch_def after_dispatch_eq
  by (simp_all add: say_def speak_def jarvis_init_def history_commands_def add_to_history_def
      deque_append_def session_init_def MEMORY_SIZE_def speech_init_def apply_voice_style_def
      chrome_prompt_def VOICE_STYLES_def DEFAULT_VOICE_STYLE_def)

lemma confirmed_is_open_chrome:
  "\<lparr>action = pending_action chrome_pending, params = pending_params chrome_pending\<rparr> = open_chrome"
  by (simp add: chrome_pending_def open_chrome_def)

lemma after_yes_eq:
  "handle_pending_confirmation 3 quiet_world after_dispatch (answer ''yes'') =
     (None, say ((say (after_dispatch\<lparr>session := (session after_dispatch)\<lparr>pending_confirmation := None\<rparr>\<rparr>)
                   ''Confirmed'')
              \<lparr>session := (add_to_history ((session after_dispatch)\<lparr>pending_confirmation := None\<rparr>)
                             open_chrome 0)\<lparr>pending_confirmation := Some chrome_pending\<rparr>\<rparr>)
            chrome_prompt)"
proof -
  have p: "pending_confirmation (session (say (after_dispatch
      \<lparr>session := (session after_dispatch)\<lparr>pending_confirmation := None\<rparr>\<rparr>) ''Confirmed'')) = None"
    by (simp add: say_fields)
  have c: "confirm_action (session after_dispatch) =
      (Some open_chrome, (session after_dispatch)\<lparr>pending_confirmation := None\<rparr>)"
    using confirm_action_Some [OF after_dispatch_fields(2)]
    by (simp add: confirmed_is_open_chrome)
  have step: "handle_pending_confirmation 3 quiet_world after_dispatch (answer ''yes'') =
      execute_command (Suc (Suc (Suc 0))) quiet_world
        (say (after_dispatch\<lparr>session := (session after_dispatch)\<lparr>pending_confirmation := None\<rparr>\<rparr>)
           ''Confirmed'') open_chrome"
    unfolding handle_pending_confirmation_def numeral_3_eq_3
    by (simp add: get_pending_confirmation_def after_dispatch_fields answer_def c)
  show ?thesis
    unfolding step dispatch_open_chrome [OF p]
    by (simp add: say_fields quiet_world_def)
qed


lemma after_yes_fields:
  "fst (handle_pending_confirmation 3 quiet_world after_dispatch (answer ''yes'')) = None"
  "calls after_yes = []"
  "pending_confirmation (session after_yes) = Some chrome_pending"
  "spoken (speech after_yes) = [chrome_prompt, ''Confirmed'', chrome_prompt]"
  unfolding after_yes_def after_yes_eq
  by (simp_all add: say_def speak_def after_dispatch_fields chrome_prompt_def)


text \<open>
  C1. Dispatching a command whose action needs confirmation, with no confirmation
  pending, stores the pending confirmation and calls no handler
  (\<open>dispatch_sensitive_stores_pending\<close>), and an answer that is not affirmative clears
  the slot and calls nothing (\<open>negative_response_cancels\<close>). An affirmative answer
  does not execute the confirmed command: \<open>confirm_action\<close> has emptied the slot when
  \<open>_execute_command\<close> runs, so the command is gated again. Whatever the user answers
  while a confirmation for such an action is pending, no handler is called.
\<close>

theorem confirmation_never_reaches_handler:
  assumes "pending_confirmation (session j) = Some p" "needs_confirmation (pending_action p)"
  shows "calls (snd (handle_pending_confirmation d w j inp)) = calls j"
proof -
  have exec: "calls (snd (execute_command d w
      (say (j'\<lparr>session := s\<lparr>pending_confirmation := None\<rparr>\<rparr>) ''Confirmed'')
      \<lparr>action = pending_action p, params = pending_params p\<rparr>)) = calls j'" for j' s
    using execute_command_gated_calls
      [of "\<lparr>action = pending_action p, params = pending_params p\<rparr>"
          "say (j'\<lparr>session := s\<lparr>pending_confirmation := None\<rparr>\<rparr>) ''Confirmed''" d w]
      assms(2)
    by (simp add: say_fields)
  have tail: "session j' = session j \<Longrightarrow>
      calls (snd (if b then
               (case confirm_action (session j') of
                  (Some confirmed_command, s') \<Rightarrow>
                    execute_command d w (say (j'\<lparr>session := s'\<rparr>) ''Confirmed'') confirmed_command
                | (None, s') \<Rightarrow> (None, j'\<lparr>session := s'\<rparr>))
             else (None, say (j'\<lparr>session := clear_pending_confirmation (session j')\<rparr>) ''Cancelled'')))
      = calls j'" for j' b
    using assms(1) by (simp add: confirm_action_Some exec say_fields)
  show ?thesis
  proof (cases "current_mode j = MODE_VOICE")
    case True
    obtain success heard err where v: "voice_input inp = (success, heard, err)"
      by (cases "voice_input inp")
    show ?thesis
      unfolding handle_pending_confirmation_def
      using assms(1) True v tail [of j]
      by (simp add: get_pending_confirmation_def say_fields)
  next
    case False
    show ?thesis
      unfolding handle_pending_confirmation_def
      using assms(1) False tail [of "say j ''Type yes or no:''"]
      by (simp add: get_pending_confirmation_def say_fields)
  qed
qed

text \<open>
  C1, on the session that asks to open Chrome and answers \<open>yes\<close>: the application is
  not opened, the confirmation is pending again and the prompt is spoken a second time.
\<close>

theorem confirmation_never_reaches_handler_witness:
  "pending_confirmation (session after_dispatch) = Some chrome_pending
   \<and> needs_confirmation (pending_action chrome_pending)
   \<and> fst (execute_command 3 quiet_world jarvis_init open_chrome) = None
   \<and> calls after_dispatch = []
   \<and> fst (handle_pending_confirmation 3 quiet_world after_dispatch (answer ''yes'')) = None
   \<and> calls after_yes = []
   \<and> pending_confirmation (session after_yes) = Some chrome_pending
   \<and> spoken (speech after_yes) = [chrome_prompt, ''Confirmed'', chrome_prompt]"
proof -
  have n: "needs_confirmation (pending_action chrome_pending)"
    by (simp add: needs_confirmation_def chrome_pending_def)
  have "calls (snd (handle_pending_confirmation 3 quiet_world after_dispatch (answer ''yes'')))
      = calls after_dispatch"
    using after_dispatch_fields(2) n by (rule confirmation_never_reaches_handler)
  then have "calls after_yes = []"
    by (simp add: after_yes_def after_dispatch_fields)
  then show ?thesis
    using n by (simp add: after_dispatch_fields after_yes_fields after_dispatch_eq)
qed

section \<open>Repeat and undo\<close>



lemma get_previous_command_first:
  assumes "command_history s = []"
  shows "get_previous_command (add_to_history s c t) 2 = Inr None"
  unfolding get_previous_command_def Let_def
  using assms by (simp add: add_to_history_def deque_append_def MEMORY_SIZE_def)





lemma handle_repeat_repeat:
  "handle_repeat (Suc d) w j (params repeat_command) =
     (case get_last_command (session j) of
        Some last_command \<Rightarrow> execute_command d w (say j ''Repeating last command'') last_command
      | None \<Rightarrow> (None, say j ''No previous command to repeat''))"
  by (simp add: handle_repeat.simps repeat_command_def py_getitem_def)


lemma get_last_command_add:
  "get_last_command (add_to_history s c t) = Some c"
proof -
  let ?e = "\<lparr>entry_command = c, entry_timestamp = t\<rparr>"
  have "deque_append MEMORY_SIZE (command_history s) ?e \<noteq> []
      \<and> last (deque_append MEMORY_SIZE (command_history s) ?e) = ?e"
  proof (cases "command_history s")
    case Nil
    then show ?thesis by (simp add: deque_append_def MEMORY_SIZE_def)
  next
    case (Cons x xs)
    then show ?thesis by (simp add: deque_append_def Let_def)
  qed
  then show ?thesis by (simp add: get_last_command_def add_to_history_def)
qed

lemma execute_repeat:
  "execute_command (Suc (Suc d)) w j repeat_command =
     execute_command d w
       (say (j\<lparr>session := add_to_history (session j) repeat_command (clock w)\<rparr>)
          ''Repeating last command'') repeat_command"
proof -
  have n: "\<not> needs_confirmation (action repeat_command)"
    by (simp add: needs_confirmation_def repeat_command_def)
  have a: "action repeat_command = ''repeat''" by (simp add: repeat_command_def)
  have "execute_command (Suc (Suc d)) w j repeat_command =
      handle_repeat (Suc d) w (j\<lparr>session := add_to_history (session j) repeat_command (clock w)\<rparr>)
        (params repeat_command)"
    using n by (simp add: execute_command.simps(2) Let_def a)
  then show ?thesis
    unfolding handle_repeat_repeat by (simp add: get_last_command_add)
qed

lemma repeat_never_returns:
  "fst (execute_command d w j repeat_command) = Some RecursionError"
proof (induction d arbitrary: j rule: less_induct)
  case (less d)
  show ?case
  proof (cases d)
    case 0
    then show ?thesis by (simp add: execute_command.simps)
  next
    case (Suc d1)
    show ?thesis
    proof (cases d1)
      case 0
      have n: "\<not> needs_confirmation (action repeat_command)"
        by (simp add: needs_confirmation_def repeat_command_def)
      have a: "action repeat_command = ''repeat''" by (simp add: repeat_command_def)
      show ?thesis
        unfolding Suc 0 using n
        by (simp add: execute_command.simps(2) handle_repeat.simps(1) Let_def a)
    next
      case (Suc d2)
      have "d2 < d" using \<open>d = Suc d1\<close> Suc by simp
      from less.IH [OF this] show ?thesis
        unfolding \<open>d = Suc d1\<close> Suc execute_repeat .
    qed
  qed
qed









end
